theory Spec2Isabelle
  imports Complex_Main "HOL-Library.Log_Nat"
begin

text \<open>
  The notebook on Segment Anything in KerasHub prepares an image for the segmentation
  model with its function \<open>inference_resizing\<close>, puts the prompts into the dictionary
  that \<open>model.predict\<close> receives, and turns the logits the model returns into masks.
  This theory embeds these three parts and settles what is claimed of them.  The model
  itself and the resampling filter of the tensor library are parameters.
\<close>

section \<open>Binary floating point with round-to-nearest-even\<close>

text \<open>
  The notebook computes the target size with Python \<open>float\<close>s (IEEE binary64) and the
  pixel values with \<open>float32\<close> tensors (IEEE binary32).  Both are modelled by the reals
  they denote together with an explicit rounding step after every arithmetic operation:
  \<open>round_to p\<close> rounds a real to the nearest number with a \<open>p\<close>-bit significand, ties to
  the even significand.  The exponent range is not bounded; every value that occurs for
  tensor dimensions below \<open>2^63\<close> and for pixel values of an image lies in the normal
  range of the respective format, where the two notions coincide.
\<close>

definition expo :: "real \<Rightarrow> int" where
  \<comment> \<open>the binary exponent \<open>e\<close> of a positive real: \<open>2^e \<le> x < 2^(e+1)\<close>\<close>
  "expo x = (if 1 \<le> x then int (floorlog 2 (nat \<lfloor>x\<rfloor>)) - 1
             else - int (floorlog 2 (nat (\<lceil>1 / x\<rceil> - 1))))"

definition round_even :: "real \<Rightarrow> int" where
  \<comment> \<open>the nearest integer, a tie going to the even neighbour\<close>
  "round_even q = (let n = \<lfloor>q\<rfloor>; r = q - of_int n in
     if r < 1 / 2 then n else if 1 / 2 < r then n + 1 else if even n then n else n + 1)"

definition round_pos :: "nat \<Rightarrow> real \<Rightarrow> real" where
  "round_pos p x = (let ulp = 2 powi (expo x - int p + 1) in of_int (round_even (x / ulp)) * ulp)"

definition round_to :: "nat \<Rightarrow> real \<Rightarrow> real" where
  "round_to p x = (if x = 0 then 0 else if x < 0 then - round_pos p (- x) else round_pos p x)"

definition fl64 :: "real \<Rightarrow> real" where
  "fl64 = round_to 53"

definition fl32 :: "real \<Rightarrow> real" where
  "fl32 = round_to 24"

definition float_of_int :: "int \<Rightarrow> real" where
  \<comment> \<open>the conversion of a Python \<open>int\<close> operand in mixed \<open>int\<close>/\<open>float\<close> arithmetic\<close>
  "float_of_int n = fl64 (of_int n)"

definition py_int :: "real \<Rightarrow> int" where
  \<comment> \<open>Python's \<open>int(x)\<close> on a float: truncation towards zero\<close>
  "py_int x = (if 0 \<le> x then \<lfloor>x\<rfloor> else \<lceil>x\<rceil>)"

section \<open>Tensors\<close>

text \<open>
  A rank-3 tensor in \<open>(height, width, channels)\<close> layout: its shape, its element type
  and its elements.  Only the elements inside the shape are meaningful.
\<close>

datatype dtype = UInt8 | Float16 | Float32 | Float64

record tensor =
  shape :: "nat \<times> nat \<times> nat"
  dtype :: dtype
  px :: "nat \<Rightarrow> nat \<Rightarrow> nat \<Rightarrow> real"

datatype error = ZeroDivisionError | ValueError

fun dtype_rank :: "dtype \<Rightarrow> nat" where
  "dtype_rank UInt8 = 0"
| "dtype_rank Float16 = 1"
| "dtype_rank Float32 = 2"
| "dtype_rank Float64 = 3"

definition result_type :: "dtype \<Rightarrow> dtype \<Rightarrow> dtype" where
  \<comment> \<open>type promotion of a binary operation\<close>
  "result_type a b = (if dtype_rank a \<le> dtype_rank b then b else a)"

definition cast_float32 :: "tensor \<Rightarrow> tensor" where
  \<comment> \<open>\<open>ops.cast\<close> to \<open>float32\<close>: every element is rounded to that format\<close>
  "cast_float32 t = t\<lparr>dtype := Float32, px := (\<lambda>i j c. fl32 (px t i j c))\<rparr>"

definition pixel_mean :: "real list" where
  \<comment> \<open>\<open>ops.array([123.675, 116.28, 103.53])\<close>: Python floats stored in a \<open>float32\<close> tensor\<close>
  "pixel_mean = map (\<lambda>v. fl32 (fl64 v)) [123675 / 1000, 11628 / 100, 10353 / 100]"

definition pixel_std :: "real list" where
  \<comment> \<open>\<open>ops.array([58.395, 57.12, 57.375])\<close>\<close>
  "pixel_std = map (\<lambda>v. fl32 (fl64 v)) [58395 / 1000, 5712 / 100, 57375 / 1000]"

definition broadcast_op :: "(real \<Rightarrow> real \<Rightarrow> real) \<Rightarrow> tensor \<Rightarrow> real list \<Rightarrow> error + tensor" where
  \<comment> \<open>an elementwise \<open>float32\<close> operation of an \<open>(h, w, c)\<close> tensor with a vector along the
      channel axis, under broadcasting: \<open>c\<close> must be the vector's length or 1\<close>
  "broadcast_op f t v =
     (case shape t of (h, w, c) \<Rightarrow>
        if c = length v then
          Inr \<lparr>shape = (h, w, c), dtype = result_type (dtype t) Float32,
               px = (\<lambda>i j k. fl32 (f (px t i j k) (v ! k)))\<rparr>
        else if c = 1 then
          Inr \<lparr>shape = (h, w, length v), dtype = result_type (dtype t) Float32,
               px = (\<lambda>i j k. fl32 (f (px t i j 0) (v ! k)))\<rparr>
        else Inl ValueError)"

definition pad_bottom_right :: "tensor \<Rightarrow> int \<Rightarrow> int \<Rightarrow> error + tensor" where
  \<comment> \<open>\<open>ops.pad(image, [(0, pad_h), (0, pad_w), (0, 0)])\<close>: constant zero padding after the
      last row and the last column; a negative width is rejected\<close>
  "pad_bottom_right t pad_h pad_w =
     (case shape t of (h, w, c) \<Rightarrow>
        if pad_h < 0 \<or> pad_w < 0 then Inl ValueError
        else Inr \<lparr>shape = (h + nat pad_h, w + nat pad_w, c), dtype = dtype t,
                  px = (\<lambda>i j k. if i < h \<and> j < w then px t i j k else 0)\<rparr>)"

definition bind_err :: "error + 'a \<Rightarrow> ('a \<Rightarrow> error + 'b) \<Rightarrow> error + 'b" where
  "bind_err r f = (case r of Inl e \<Rightarrow> Inl e | Inr x \<Rightarrow> f x)"

section \<open>\<open>inference_resizing\<close>\<close>

text \<open>
  \<^verbatim>\<open>
  def inference_resizing(image, pad=True):
      image = ops.cast(image, dtype="float32")
      old_h, old_w = image.shape[0], image.shape[1]
      scale = 1024 * 1.0 / max(old_h, old_w)
      new_h = old_h * scale
      new_w = old_w * scale
      preprocess_shape = int(new_h + 0.5), int(new_w + 0.5)
      image = ops.image.resize(image[None, ...], preprocess_shape)[0]
      if pad:
          pixel_mean = ops.array([123.675, 116.28, 103.53])
          pixel_std = ops.array([58.395, 57.12, 57.375])
          image = (image - pixel_mean) / pixel_std
          h, w = image.shape[0], image.shape[1]
          pad_h = 1024 - h
          pad_w = 1024 - w
          image = ops.pad(image, [(0, pad_h), (0, pad_w), (0, 0)])
          image = image * pixel_std + pixel_mean
      return image
  \<close>
  The resampling filter \<open>ops.image.resize\<close> belongs to the tensor library; it is a
  parameter \<open>resize\<close> of the model, applied to one image and the target size.
\<close>

definition scale_factor :: "nat \<Rightarrow> nat \<Rightarrow> real" where
  \<comment> \<open>\<open>scale = 1024 * 1.0 / max(old_h, old_w)\<close>\<close>
  "scale_factor old_h old_w =
     fl64 (fl64 (float_of_int 1024 * 1) / float_of_int (int (max old_h old_w)))"

definition preprocess_shape :: "nat \<Rightarrow> nat \<Rightarrow> int \<times> int" where
  "preprocess_shape old_h old_w =
     (let scale = scale_factor old_h old_w;
          new_h = fl64 (float_of_int (int old_h) * scale);
          new_w = fl64 (float_of_int (int old_w) * scale)
      in (py_int (fl64 (new_h + 1 / 2)), py_int (fl64 (new_w + 1 / 2))))"

definition inference_resizing ::
  "(tensor \<Rightarrow> int \<times> int \<Rightarrow> tensor) \<Rightarrow> tensor \<Rightarrow> bool \<Rightarrow> error + tensor" where
  "inference_resizing resize image0 pad =
     (let image1 = cast_float32 image0 in
      case shape image1 of (old_h, old_w, _) \<Rightarrow>
        if max old_h old_w = 0 then Inl ZeroDivisionError
        else
          let image2 = resize image1 (preprocess_shape old_h old_w) in
          if pad then
            bind_err (broadcast_op (\<lambda>a b. a - b) image2 pixel_mean) (\<lambda>image3.
            bind_err (broadcast_op (\<lambda>a b. a / b) image3 pixel_std) (\<lambda>image4.
            case shape image4 of (h, w, _) \<Rightarrow>
              let pad_h = 1024 - int h; pad_w = 1024 - int w in
              bind_err (pad_bottom_right image4 pad_h pad_w) (\<lambda>image5.
              bind_err (broadcast_op (\<lambda>a b. a * b) image5 pixel_std) (\<lambda>image6.
              broadcast_op (\<lambda>a b. a + b) image6 pixel_mean))))
          else Inr image2)"

definition resize_contract :: "(tensor \<Rightarrow> int \<times> int \<Rightarrow> tensor) \<Rightarrow> bool" where
  \<comment> \<open>what the model assumes of the resampling filter: the result has the requested
      height and width, and the channels and element type of its input\<close>
  "resize_contract resize \<longleftrightarrow>
     (\<forall>t th tw. 0 \<le> th \<longrightarrow> 0 \<le> tw \<longrightarrow>
        shape (resize t (th, tw)) = (nat th, nat tw, snd (snd (shape t))) \<and>
        dtype (resize t (th, tw)) = dtype t)"

definition nearest_resize :: "tensor \<Rightarrow> int \<times> int \<Rightarrow> tensor" where
  \<comment> \<open>nearest-neighbour resampling, one filter that meets \<open>resize_contract\<close>; it stands
      in for the library's filter where a result is computed at a concrete image\<close>
  "nearest_resize t target =
     (case (shape t, target) of ((h, w, c), (th, tw)) \<Rightarrow>
        \<lparr>shape = (nat th, nat tw, c), dtype = dtype t,
         px = (\<lambda>i j k. px t ((i * h) div nat th) ((j * w) div nat tw) k)\<rparr>)"


subsection \<open>The target size in the words of the specification\<close>




subsection \<open>Tensors as objects in a store\<close>





section \<open>Prompts and requests\<close>

text \<open>
  The input of \<open>model.predict\<close> is a dictionary; a key that is absent is \<open>None\<close> here.
  Every array has a leading batch axis.  The model itself is a parameter \<open>predict\<close> of
  the cells that call it.
\<close>

type_synonym point = "real \<times> real"

type_synonym box = "point \<times> point"

record request =
  images :: "tensor list"
  points :: "point list list option"
  labels :: "int list list option"
  boxes :: "box list list option"
  masks :: "tensor list list option"

definition point_prompt_request :: "tensor \<Rightarrow> point list \<Rightarrow> int list \<Rightarrow> request" where
  \<comment> \<open>the point prompt cell: the image, the points followed by \<open>np.zeros((1, 1, 2))\<close>
      and the labels followed by \<open>np.full((1, 1), fill_value=-1)\<close>, each under one batch axis\<close>
  "point_prompt_request img input_point input_label =
     \<lparr>images = [img],
      points = Some [input_point @ [(0, 0)] ],
      labels = Some [input_label @ [- 1] ],
      boxes = None, masks = None\<rparr>"

definition box_prompt_request :: "tensor \<Rightarrow> box \<Rightarrow> request" where
  \<comment> \<open>the box prompt cell: the image and \<open>input_box[np.newaxis, np.newaxis, ...]\<close>\<close>
  "box_prompt_request img input_box =
     \<lparr>images = [img], points = None, labels = None, boxes = Some [ [input_box] ], masks = None\<rparr>"

definition combined_prompt_request :: "tensor \<Rightarrow> point list \<Rightarrow> int list \<Rightarrow> box \<Rightarrow> request" where
  \<comment> \<open>the combined prompt cell: points, labels and box as they are, under the batch axes\<close>
  "combined_prompt_request img input_point input_label input_box =
     \<lparr>images = [img], points = Some [input_point], labels = Some [input_label],
      boxes = Some [ [input_box] ], masks = None\<rparr>"

definition text_prompt_request :: "tensor \<Rightarrow> (real \<times> real \<times> real \<times> real) list \<Rightarrow> request" where
  \<comment> \<open>the text prompt cell: \<open>np.repeat(image[np.newaxis, ...], boxes.shape[0], axis=0)\<close>
      and \<open>boxes.reshape(-1, 1, 2, 2)\<close>, with one \<open>xyxy\<close> row per detected box\<close>
  "text_prompt_request img xyxy =
     \<lparr>images = replicate (length xyxy) img, points = None, labels = None,
      boxes = Some (map (\<lambda>(x0, y0, x1, y1). [((x0, y0), (x1, y1))]) xyxy), masks = None\<rparr>"

definition point_prompt_cell :: "(request \<Rightarrow> 'o) \<Rightarrow> tensor \<Rightarrow> point list \<Rightarrow> int list \<Rightarrow> 'o" where
  "point_prompt_cell predict img input_point input_label =
     predict (point_prompt_request img input_point input_label)"

definition box_prompt_cell :: "(request \<Rightarrow> 'o) \<Rightarrow> tensor \<Rightarrow> box \<Rightarrow> 'o" where
  "box_prompt_cell predict img input_box = predict (box_prompt_request img input_box)"

definition combined_prompt_cell ::
  "(request \<Rightarrow> 'o) \<Rightarrow> tensor \<Rightarrow> point list \<Rightarrow> int list \<Rightarrow> box \<Rightarrow> 'o" where
  "combined_prompt_cell predict img input_point input_label input_box =
     predict (combined_prompt_request img input_point input_label input_box)"

definition text_prompt_cell ::
  "(request \<Rightarrow> 'o) \<Rightarrow> tensor \<Rightarrow> (real \<times> real \<times> real \<times> real) list \<Rightarrow> 'o" where
  "text_prompt_cell predict img xyxy = predict (text_prompt_request img xyxy)"

section \<open>Masks\<close>

text \<open>
  The logits are turned into a mask by \<open>mask > 0.0\<close>, in one cell followed by \<open>1 * \<dots>\<close>.
  An array element is a float, a boolean or an integer; a comparison with the float
  \<open>0.0\<close> reads a boolean as 0 or 1.
\<close>

datatype scalar = FloatV real | BoolV bool | IntV int

fun as_float :: "scalar \<Rightarrow> real" where
  "as_float (FloatV x) = x"
| "as_float (BoolV b) = (if b then 1 else 0)"
| "as_float (IntV n) = of_int n"

definition greater_zero :: "scalar list list \<Rightarrow> scalar list list" where
  \<comment> \<open>\<open>mask > 0.0\<close>\<close>
  "greater_zero arr = map (map (\<lambda>v. BoolV (0 < as_float v))) arr"

fun one_times :: "scalar \<Rightarrow> scalar" where
  "one_times (FloatV x) = FloatV (1 * x)"
| "one_times (BoolV b) = IntV (if b then 1 else 0)"
| "one_times (IntV n) = IntV (1 * n)"

definition binary_mask :: "scalar list list \<Rightarrow> scalar list list" where
  \<comment> \<open>\<open>1 * (mask > 0.0)\<close>\<close>
  "binary_mask arr = map (map one_times) (greater_zero arr)"

section \<open>Example inputs\<close>

definition photo :: tensor where
  \<comment> \<open>an 8-bit RGB image 800 wide and 600 high\<close>
  "photo = \<lparr>shape = (600, 800, 3), dtype = UInt8, px = (\<lambda>i j k. real ((i + j + k) mod 256))\<rparr>"

definition square_image :: tensor where
  \<comment> \<open>an 8-bit RGB image of size 1024 by 1024 with every element 1\<close>
  "square_image = \<lparr>shape = (1024, 1024, 3), dtype = UInt8, px = (\<lambda>i j k. 1)\<rparr>"

definition canvas :: tensor where
  "canvas = \<lparr>shape = (1024, 1024, 3), dtype = Float32, px = (\<lambda>i j k. 0)\<rparr>"

definition input_box :: box where
  "input_box = ((240, 340), (400, 500))"

definition echo :: "request \<Rightarrow> request" where
  \<comment> \<open>a stand-in for the model that returns the request it was called with\<close>
  "echo r = r"

section \<open>Rounding error\<close>

lemma expo_ge1:
  assumes "1 \<le> x"
  shows "2 powi expo x \<le> x" and "x < 2 powi (expo x + 1)"
proof -
  define n where "n = nat \<lfloor>x\<rfloor>"
  define b where "b = floorlog 2 n"
  have n1: "1 \<le> n" using assms by (simp add: n_def le_nat_iff)
  have bnd: "2 ^ (b - 1) \<le> n" "n < 2 ^ b"
    using floorlog_bounds[of n 2] n1 by (simp_all add: b_def)
  have b1: "1 \<le> b" using n1 floorlog_eq_zero_iff[of 2 n] by (simp add: b_def Suc_le_eq)
  have e: "expo x = int b - 1" using assms by (simp add: expo_def b_def n_def)
  have nx: "real n \<le> x" "x < real n + 1"
    using assms by (simp_all add: n_def)
  have "2 powi (int b - 1) = (2::real) ^ (b - 1)"
    using b1 by (metis of_nat_1 of_nat_diff power_int_of_nat)
  moreover have "(2::real) ^ (b - 1) \<le> real n"
    using bnd(1) by (metis of_nat_le_iff of_nat_numeral of_nat_power)
  ultimately have "2 powi (int b - 1) \<le> x" using nx by linarith
  then show "2 powi expo x \<le> x" unfolding e .
  have "real n + 1 \<le> 2 ^ b"
    using bnd(2) by (metis Suc_leI of_nat_Suc of_nat_le_iff of_nat_numeral of_nat_power add.commute)
  then show "x < 2 powi (expo x + 1)" using nx e by simp
qed

lemma expo_lt1:
  assumes "0 < x" "x < 1"
  shows "2 powi expo x \<le> x" and "x < 2 powi (expo x + 1)"
proof -
  define y where "y = 1 / x"
  define n where "n = nat (\<lceil>y\<rceil> - 1)"
  define b where "b = floorlog 2 n"
  have y1: "1 < y" using assms by (simp add: y_def)
  then have c2: "2 \<le> \<lceil>y\<rceil>" by linarith
  have n1: "1 \<le> n" unfolding n_def using c2 by linarith
  have bnd: "2 ^ (b - 1) \<le> n" "n < 2 ^ b"
    using floorlog_bounds[of n 2] n1 by (simp_all add: b_def)
  have b1: "1 \<le> b" using n1 floorlog_eq_zero_iff[of 2 n] by (simp add: b_def Suc_le_eq)
  have e: "expo x = - int b" using assms by (simp add: expo_def b_def n_def y_def)
  have ny: "real n < y" "y \<le> real n + 1"
    using c2 by (simp_all add: n_def) linarith+
  have lo: "(2::real) ^ (b - 1) \<le> real n"
    using bnd(1) by (metis of_nat_le_iff of_nat_numeral of_nat_power)
  have hi: "real n + 1 \<le> 2 ^ b"
    using bnd(2) by (metis Suc_leI of_nat_Suc of_nat_le_iff of_nat_numeral of_nat_power add.commute)
  have xy: "x = 1 / y" using assms by (simp add: y_def)
  have "y \<le> 2 ^ b" using ny hi by linarith
  then have "1 / 2 ^ b \<le> x" unfolding xy using y1 by (simp add: frac_le)
  then show "2 powi expo x \<le> x" using e by (simp add: power_int_minus field_simps)
  have "2 ^ (b - 1) < y" using ny lo by linarith
  then have "x < 1 / 2 ^ (b - 1)" unfolding xy using y1 by (simp add: frac_less2)
  moreover have "2 powi (- int b + 1) = 1 / (2::real) ^ (b - 1)"
  proof -
    have "- int b + 1 = - int (b - 1)" using b1 by simp
    then show ?thesis by (simp only: power_int_minus power_int_of_nat inverse_eq_divide)
  qed
  ultimately show "x < 2 powi (expo x + 1)" using e by simp
qed

lemma expo_bounds:
  assumes "0 < x"
  shows "2 powi expo x \<le> x" and "x < 2 powi (expo x + 1)"
  using assms expo_ge1[of x] expo_lt1[of x] by (cases "1 \<le> x"; simp)+

lemma round_even_near: "\<bar>of_int (round_even q) - q\<bar> \<le> 1 / 2"
  unfolding round_even_def Let_def by (auto; linarith)

lemma round_pos_error:
  assumes "0 < x"
  shows "\<bar>round_pos p x - x\<bar> \<le> x / 2 ^ p"
proof -
  define ulp :: real where "ulp = 2 powi (expo x - int p + 1)"
  have up: "0 < ulp" by (simp add: ulp_def)
  have rp: "round_pos p x = of_int (round_even (x / ulp)) * ulp"
    unfolding round_pos_def ulp_def Let_def ..
  have "round_pos p x - x = (of_int (round_even (x / ulp)) - x / ulp) * ulp"
    unfolding rp using up by (simp add: field_simps)
  then have "\<bar>round_pos p x - x\<bar> = \<bar>of_int (round_even (x / ulp)) - x / ulp\<bar> * ulp"
    using up by (simp add: abs_mult)
  also have "\<dots> \<le> (1 / 2) * ulp"
    using round_even_near[of "x / ulp"] up by (simp add: mult_right_mono)
  also have "(1 / 2) * ulp = 2 powi expo x / 2 ^ p"
    by (simp add: ulp_def power_int_add power_int_diff)
  also have "\<dots> \<le> x / 2 ^ p"
    using expo_bounds(1)[OF assms] by (simp add: divide_right_mono)
  finally show ?thesis .
qed

lemma round_to_error: "\<bar>round_to p x - x\<bar> \<le> \<bar>x\<bar> / 2 ^ p"
proof -
  consider "x = 0" | "x < 0" | "0 < x" by linarith
  then show ?thesis
  proof cases
    case 1
    then show ?thesis by (simp add: round_to_def)
  next
    case 2
    then show ?thesis using round_pos_error[of "- x" p] by (simp add: round_to_def)
  next
    case 3
    then show ?thesis using round_pos_error[of x p] by (simp add: round_to_def)
  qed
qed

lemma fl64_between:
  assumes "0 < x" "lo \<le> x" "x \<le> hi"
  shows "lo * (1 - 1 / 2 ^ 53) \<le> fl64 x" and "fl64 x \<le> hi * (1 + 1 / 2 ^ 53)"
proof -
  have e: "\<bar>fl64 x - x\<bar> \<le> x / 2 ^ 53"
    using round_to_error[of 53 x] assms(1) by (simp add: fl64_def)
  have b: "x - x / 2 ^ 53 \<le> fl64 x" "fl64 x \<le> x + x / 2 ^ 53"
    using e by linarith+
  have "lo * (1 - 1 / 2 ^ 53) \<le> x * (1 - 1 / 2 ^ 53)"
    using assms(2) by (intro mult_right_mono) simp_all
  also have "\<dots> = x - x / 2 ^ 53" by (simp add: algebra_simps)
  also have "\<dots> \<le> fl64 x" by (rule b)
  finally show "lo * (1 - 1 / 2 ^ 53) \<le> fl64 x" .
  have "fl64 x \<le> x + x / 2 ^ 53" by (rule b)
  also have "\<dots> = x * (1 + 1 / 2 ^ 53)" by (simp add: algebra_simps)
  also have "\<dots> \<le> hi * (1 + 1 / 2 ^ 53)"
    using assms(3) by (intro mult_right_mono) simp_all
  finally show "fl64 x \<le> hi * (1 + 1 / 2 ^ 53)" .
qed

lemma fl64_pos:
  assumes x: "0 < x"
  shows "0 < fl64 x"
proof -
  have "0 < x * (1 - 1 / 2 ^ 53)" using x by simp
  then show ?thesis using fl64_between(1)[OF x order_refl order_refl] by linarith
qed


lemma float_of_int_pos: "0 < n \<Longrightarrow> 0 < float_of_int n"
  by (simp add: float_of_int_def fl64_pos)

lemma float_of_int_ratio:
  assumes "0 < h" "h \<le> m"
  shows "float_of_int h * (1 - 1 / 2 ^ 53) \<le> float_of_int m * (1 + 1 / 2 ^ 53)"
proof -
  have hp: "(0::real) < of_int h" and mp: "(0::real) < of_int m" using assms by simp_all
  have "float_of_int h \<le> of_int h * (1 + 1 / 2 ^ 53)"
    using fl64_between(2)[OF hp order_refl order_refl] by (simp add: float_of_int_def)
  then have "float_of_int h * (1 - 1 / 2 ^ 53) \<le> of_int h * (1 + 1 / 2 ^ 53) * (1 - 1 / 2 ^ 53)"
    by (intro mult_right_mono) simp_all
  also have "\<dots> \<le> of_int m * (1 + 1 / 2 ^ 53) * (1 - 1 / 2 ^ 53)"
    using assms by (intro mult_right_mono) simp_all
  also have "\<dots> = (of_int m * (1 - 1 / 2 ^ 53)) * (1 + 1 / 2 ^ 53)" by simp
  also have "\<dots> \<le> float_of_int m * (1 + 1 / 2 ^ 53)"
    using fl64_between(1)[OF mp order_refl order_refl]
    by (intro mult_right_mono) (simp_all add: float_of_int_def)
  finally show ?thesis .
qed

subsection \<open>Evaluation at constants\<close>

lemmas fl_eval = fl64_def fl32_def round_to_def round_pos_def expo_def compute_floorlog
  round_even_def Let_def float_of_int_def py_int_def

lemma fl64_1024: "fl64 (float_of_int 1024 * 1) = 1024"
  by (simp add: fl_eval)

lemma pixel_mean_eval: "pixel_mean = [8105165 / 65536, 3810263 / 32768, 3392471 / 32768]"
  by (simp add: pixel_mean_def fl_eval)


lemma length_pixel_consts [simp]: "length pixel_mean = 3" "length pixel_std = 3"
  by (simp_all add: pixel_mean_def pixel_std_def)

lemma preprocess_shape_photo: "preprocess_shape 600 800 = (768, 1024)"
  by (simp add: preprocess_shape_def scale_factor_def fl_eval)


text \<open>
  Two sizes at the edge.  For a height of 147 and a width of 100352 the exact quotient
  \<open>147 * 1024 / 100352\<close> is 1.5, but the float product is just below it and the target
  height is 1.  For a height of 1 and a width of 4096 the target height is 0.
\<close>

lemma preprocess_shape_tie: "preprocess_shape 147 100352 = (1, 1024)"
  by (simp add: preprocess_shape_def scale_factor_def fl_eval)

lemma preprocess_shape_empty: "preprocess_shape 1 4096 = (0, 1024)"
  by (simp add: preprocess_shape_def scale_factor_def fl_eval)

lemma scale_factor_photo: "scale_factor 600 800 = 5764607523034235 / 4503599627370496"
  by (simp add: scale_factor_def fl_eval)

lemma padding_value:
  assumes "k < 3"
  shows "fl32 (fl32 (0 * pixel_std ! k) + pixel_mean ! k) = pixel_mean ! k"
proof -
  from assms consider "k = 0" | "k = 1" | "k = 2" by linarith
  then show ?thesis
    by cases (simp_all add: pixel_mean_eval fl_eval)
qed


section \<open>The target size\<close>

lemma long_side_target:
  assumes a: "0 < a"
  shows "py_int (fl64 (fl64 (a * fl64 (1024 / a)) + 1 / 2)) = 1024"
proof -
  define u :: real where "u = 1 / 2 ^ 53"
  define s where "s = fl64 (1024 / a)"
  define p where "p = fl64 (a * s)"
  define q where "q = fl64 (p + 1 / 2)"
  have x1: "0 < 1024 / a" using a by simp
  have s_lo: "(1024 / a) * (1 - u) \<le> s" and s_hi: "s \<le> (1024 / a) * (1 + u)"
    using fl64_between[OF x1 order_refl order_refl] by (simp_all add: s_def u_def)
  have as_lo: "1024 * (1 - u) \<le> a * s"
  proof -
    have "a * ((1024 / a) * (1 - u)) \<le> a * s" using s_lo a by (intro mult_left_mono) simp_all
    then show ?thesis using a by simp
  qed
  have as_hi: "a * s \<le> 1024 * (1 + u)"
  proof -
    have "a * s \<le> a * ((1024 / a) * (1 + u))" using s_hi a by (intro mult_left_mono) simp_all
    then show ?thesis using a by simp
  qed
  have as_pos: "0 < a * s" using as_lo by (simp add: u_def)
  have p_lo: "1024 * (1 - u) * (1 - u) \<le> p" and p_hi: "p \<le> 1024 * (1 + u) * (1 + u)"
    using fl64_between[OF as_pos as_lo as_hi] by (simp_all add: p_def u_def)
  have pp: "0 < p + 1 / 2" using p_lo by (simp add: u_def)
  have q_lo: "(1024 * (1 - u) * (1 - u) + 1 / 2) * (1 - u) \<le> q"
    and q_hi: "q \<le> (1024 * (1 + u) * (1 + u) + 1 / 2) * (1 + u)"
    using fl64_between[OF pp, of "1024 * (1 - u) * (1 - u) + 1 / 2" "1024 * (1 + u) * (1 + u) + 1 / 2"]
      p_lo p_hi by (simp_all add: q_def u_def)
  have "1024 \<le> q" using q_lo by (simp add: u_def)
  moreover have "q < 1025" using q_hi by (simp add: u_def)
  ultimately have "\<lfloor>q\<rfloor> = 1024" by linarith
  moreover have "0 \<le> q" using \<open>1024 \<le> q\<close> by linarith
  ultimately show ?thesis by (simp add: py_int_def q_def p_def s_def)
qed

lemma short_side_target:
  assumes a: "0 < a" and b: "0 < b" and ba: "b * (1 - 1 / 2 ^ 53) \<le> a * (1 + 1 / 2 ^ 53)"
  shows "0 < fl64 (fl64 (b * fl64 (1024 / a)) + 1 / 2)"
    and "py_int (fl64 (fl64 (b * fl64 (1024 / a)) + 1 / 2)) \<le> 1024"
proof -
  define u :: real where "u = 1 / 2 ^ 53"
  define s where "s = fl64 (1024 / a)"
  define p where "p = fl64 (b * s)"
  define q where "q = fl64 (p + 1 / 2)"
  define K :: real where "K = 1024 * ((1 + u) / (1 - u)) * (1 + u)"
  have u1: "0 < 1 - u" by (simp add: u_def)
  have x1: "0 < 1024 / a" using a by simp
  have s_pos: "0 < s" unfolding s_def by (rule fl64_pos[OF x1])
  have s_hi: "s \<le> (1024 / a) * (1 + u)"
    using fl64_between(2)[OF x1 order_refl order_refl] by (simp add: s_def u_def)
  have "b \<le> a * ((1 + u) / (1 - u))"
    using ba u1 by (simp add: u_def field_simps)
  then have "b * s \<le> (a * ((1 + u) / (1 - u))) * s"
    using s_pos by (intro mult_right_mono) simp_all
  also have "\<dots> \<le> (a * ((1 + u) / (1 - u))) * ((1024 / a) * (1 + u))"
    using s_hi a u1 by (intro mult_left_mono) (simp_all add: u_def)
  also have "\<dots> = K" using a by (simp add: K_def)
  finally have bs_hi: "b * s \<le> K" .
  have bs_pos: "0 < b * s" using b s_pos by simp
  have p_pos: "0 < p" unfolding p_def by (rule fl64_pos[OF bs_pos])
  have p_hi: "p \<le> K * (1 + u)"
    using fl64_between(2)[OF bs_pos order_refl bs_hi] by (simp add: p_def u_def)
  have pp: "0 < p + 1 / 2" using p_pos by simp
  have q_pos: "0 < q" unfolding q_def by (rule fl64_pos[OF pp])
  have q_hi: "q \<le> (K * (1 + u) + 1 / 2) * (1 + u)"
    using fl64_between(2)[OF pp order_refl, of "K * (1 + u) + 1 / 2"] p_hi
    by (simp add: q_def u_def)
  have "(K * (1 + u) + 1 / 2) * (1 + u) < 1025" by (simp add: K_def u_def)
  then have "q < 1025" using q_hi by linarith
  then have "\<lfloor>q\<rfloor> \<le> 1024" by linarith
  moreover have "py_int q = \<lfloor>q\<rfloor>" using q_pos by (simp add: py_int_def)
  ultimately show "py_int (fl64 (fl64 (b * fl64 (1024 / a)) + 1 / 2)) \<le> 1024"
    by (simp add: q_def p_def s_def)
  show "0 < fl64 (fl64 (b * fl64 (1024 / a)) + 1 / 2)"
    using q_pos by (simp add: q_def p_def s_def)
qed

lemma scale_factor_eq: "scale_factor old_h old_w = fl64 (1024 / float_of_int (int (max old_h old_w)))"
  by (simp only: scale_factor_def fl64_1024)

lemma preprocess_shape_eq:
  "preprocess_shape old_h old_w =
     (py_int (fl64 (fl64 (float_of_int (int old_h) * fl64 (1024 / float_of_int (int (max old_h old_w)))) + 1 / 2)),
      py_int (fl64 (fl64 (float_of_int (int old_w) * fl64 (1024 / float_of_int (int (max old_h old_w)))) + 1 / 2)))"
  by (simp only: preprocess_shape_def Let_def scale_factor_eq)

lemma preprocess_shape_bounds:
  assumes "0 < old_h" "0 < old_w"
  shows "max (fst (preprocess_shape old_h old_w)) (snd (preprocess_shape old_h old_w)) = 1024"
    and "0 \<le> fst (preprocess_shape old_h old_w)" and "fst (preprocess_shape old_h old_w) \<le> 1024"
    and "0 \<le> snd (preprocess_shape old_h old_w)" and "snd (preprocess_shape old_h old_w) \<le> 1024"
proof -
  define a where "a = float_of_int (int (max old_h old_w))"
  have a: "0 < a" using assms by (simp add: a_def float_of_int_pos)
  have hb: "0 < float_of_int (int old_h)" and wb: "0 < float_of_int (int old_w)"
    using assms by (simp_all add: float_of_int_pos)
  have hr: "float_of_int (int old_h) * (1 - 1 / 2 ^ 53) \<le> a * (1 + 1 / 2 ^ 53)"
    unfolding a_def using assms by (intro float_of_int_ratio) simp_all
  have wr: "float_of_int (int old_w) * (1 - 1 / 2 ^ 53) \<le> a * (1 + 1 / 2 ^ 53)"
    unfolding a_def using assms by (intro float_of_int_ratio) simp_all
  have fst_eq: "fst (preprocess_shape old_h old_w)
      = py_int (fl64 (fl64 (float_of_int (int old_h) * fl64 (1024 / a)) + 1 / 2))"
    and snd_eq: "snd (preprocess_shape old_h old_w)
      = py_int (fl64 (fl64 (float_of_int (int old_w) * fl64 (1024 / a)) + 1 / 2))"
    by (simp_all add: preprocess_shape_eq a_def)
  show h0: "0 \<le> fst (preprocess_shape old_h old_w)"
    unfolding fst_eq using short_side_target(1)[OF a hb hr] by (simp add: py_int_def)
  show h1: "fst (preprocess_shape old_h old_w) \<le> 1024"
    unfolding fst_eq using short_side_target(2)[OF a hb hr] by simp
  show w0: "0 \<le> snd (preprocess_shape old_h old_w)"
    unfolding snd_eq using short_side_target(1)[OF a wb wr] by (simp add: py_int_def)
  show w1: "snd (preprocess_shape old_h old_w) \<le> 1024"
    unfolding snd_eq using short_side_target(2)[OF a wb wr] by simp
  have "fst (preprocess_shape old_h old_w) = 1024 \<or> snd (preprocess_shape old_h old_w) = 1024"
  proof (cases "old_w \<le> old_h")
    case True
    then have "a = float_of_int (int old_h)" by (simp add: a_def max_def)
    then show ?thesis using long_side_target[OF a] fst_eq by simp
  next
    case False
    then have "a = float_of_int (int old_w)" by (simp add: a_def max_def)
    then show ?thesis using long_side_target[OF a] snd_eq by simp
  qed
  then show "max (fst (preprocess_shape old_h old_w)) (snd (preprocess_shape old_h old_w)) = 1024"
    using h1 w1 by linarith
qed

section \<open>The result of \<open>inference_resizing\<close>\<close>

lemma shape_cast_float32 [simp]: "shape (cast_float32 t) = shape t"
  and dtype_cast_float32 [simp]: "dtype (cast_float32 t) = Float32"
  and px_cast_float32 [simp]: "px (cast_float32 t) i j c = fl32 (px t i j c)"
  by (simp_all add: cast_float32_def)

lemma broadcast_op_rgb:
  assumes "shape t = (h, w, 3)" "length v = 3"
  shows "broadcast_op f t v =
     Inr \<lparr>shape = (h, w, 3), dtype = result_type (dtype t) Float32,
          px = (\<lambda>i j k. fl32 (f (px t i j k) (v ! k)))\<rparr>"
  using assms by (simp add: broadcast_op_def)

lemma pad_bottom_right_ok:
  assumes "shape t = (h, w, c)" "0 \<le> pad_h" "0 \<le> pad_w"
  shows "pad_bottom_right t pad_h pad_w =
     Inr \<lparr>shape = (h + nat pad_h, w + nat pad_w, c), dtype = dtype t,
          px = (\<lambda>i j k. if i < h \<and> j < w then px t i j k else 0)\<rparr>"
  using assms by (simp add: pad_bottom_right_def)

lemma inference_resizing_unpadded:
  assumes "shape img = (H, W, C)" "0 < H"
  shows "inference_resizing resize img False
           = Inr (resize (cast_float32 img) (preprocess_shape H W))"
  using assms by (simp add: inference_resizing_def Let_def)

lemma resized_shape:
  assumes rc: "resize_contract resize" and sh: "shape img = (H, W, C)"
    and H: "0 < H" and W: "0 < W"
  shows "shape (resize (cast_float32 img) (preprocess_shape H W))
           = (nat (fst (preprocess_shape H W)), nat (snd (preprocess_shape H W)), C)"
    and "dtype (resize (cast_float32 img) (preprocess_shape H W)) = Float32"
proof -
  obtain th tw where ps: "preprocess_shape H W = (th, tw)" by (cases "preprocess_shape H W")
  have b: "0 \<le> th" "0 \<le> tw"
    using preprocess_shape_bounds[OF H W] by (simp_all add: ps)
  show "shape (resize (cast_float32 img) (preprocess_shape H W))
           = (nat (fst (preprocess_shape H W)), nat (snd (preprocess_shape H W)), C)"
    and "dtype (resize (cast_float32 img) (preprocess_shape H W)) = Float32"
    using rc b sh unfolding ps resize_contract_def by simp_all
qed

lemma inference_resizing_padded:
  assumes rc: "resize_contract resize" and sh: "shape img = (H, W, 3)"
    and H: "0 < H" and W: "0 < W"
  shows "inference_resizing resize img True =
     Inr \<lparr>shape = (1024, 1024, 3), dtype = Float32,
          px = (\<lambda>i j k. fl32 (fl32 ((if i < nat (fst (preprocess_shape H W)) \<and> j < nat (snd (preprocess_shape H W))
                  then fl32 (fl32 (px (resize (cast_float32 img) (preprocess_shape H W)) i j k
                         - pixel_mean ! k) / pixel_std ! k) else 0) * pixel_std ! k) + pixel_mean ! k))\<rparr>"
proof -
  define r where "r = resize (cast_float32 img) (preprocess_shape H W)"
  define h where "h = nat (fst (preprocess_shape H W))"
  define w where "w = nat (snd (preprocess_shape H W))"
  have b: "h \<le> 1024" "w \<le> 1024"
    using preprocess_shape_bounds[OF H W] by (simp_all add: h_def w_def)
  have rs: "shape r = (h, w, 3)" and rd: "dtype r = Float32"
    using resized_shape[OF rc sh H W] by (simp_all add: r_def h_def w_def)
  define i3 where "i3 = \<lparr>shape = (h, w, 3), dtype = Float32,
          px = (\<lambda>i j k. fl32 (px r i j k - pixel_mean ! k))\<rparr>"
  define i4 where "i4 = \<lparr>shape = (h, w, 3), dtype = Float32,
          px = (\<lambda>i j k. fl32 (px i3 i j k / pixel_std ! k))\<rparr>"
  define i5 where "i5 = \<lparr>shape = (1024, 1024, 3), dtype = Float32,
          px = (\<lambda>i j k. if i < h \<and> j < w then px i4 i j k else 0)\<rparr>"
  define i6 where "i6 = \<lparr>shape = (1024, 1024, 3), dtype = Float32,
          px = (\<lambda>i j k. fl32 (px i5 i j k * pixel_std ! k))\<rparr>"
  have s3: "broadcast_op (\<lambda>a b. a - b) r pixel_mean = Inr i3"
    using broadcast_op_rgb[OF rs, of pixel_mean] by (simp add: i3_def rd result_type_def)
  have s4: "broadcast_op (\<lambda>a b. a / b) i3 pixel_std = Inr i4"
    using broadcast_op_rgb[of i3 h w pixel_std] by (simp add: i3_def i4_def result_type_def)
  have pd: "h + nat (1024 - int h) = 1024" "w + nat (1024 - int w) = 1024"
    using b by linarith+
  have s5: "pad_bottom_right i4 (1024 - int h) (1024 - int w) = Inr i5"
    using pad_bottom_right_ok[of i4 h w 3 "1024 - int h" "1024 - int w"] b
    by (simp add: i4_def i5_def pd)
  have s6: "broadcast_op (\<lambda>a b. a * b) i5 pixel_std = Inr i6"
    using broadcast_op_rgb[of i5 1024 1024 pixel_std] by (simp add: i5_def i6_def result_type_def)
  have s7: "broadcast_op (\<lambda>a b. a + b) i6 pixel_mean =
     Inr \<lparr>shape = (1024, 1024, 3), dtype = Float32,
          px = (\<lambda>i j k. fl32 (px i6 i j k + pixel_mean ! k))\<rparr>"
    using broadcast_op_rgb[of i6 1024 1024 pixel_mean] by (simp add: i6_def result_type_def)
  have sh4: "shape i4 = (h, w, 3)" by (simp add: i4_def)
  have "inference_resizing resize img True =
     Inr \<lparr>shape = (1024, 1024, 3), dtype = Float32,
          px = (\<lambda>i j k. fl32 (px i6 i j k + pixel_mean ! k))\<rparr>"
    using H sh
    by (simp add: inference_resizing_def Let_def r_def[symmetric] bind_err_def s3 s4 sh4 s5 s6 s7)
  then show ?thesis
    by (simp add: i6_def i5_def i4_def i3_def r_def h_def w_def if_distrib cong: if_cong)
qed

lemma nearest_resize_contract: "resize_contract nearest_resize"
  by (simp add: resize_contract_def nearest_resize_def split: prod.splits)

lemma shape_examples [simp]:
  "shape photo = (600, 800, 3)" "shape square_image = (1024, 1024, 3)"
  by (simp_all add: photo_def square_image_def)

lemma canvas_of_photo:
  "inference_resizing nearest_resize photo True
     = Inr (projr (inference_resizing nearest_resize photo True))"
  using inference_resizing_padded[OF nearest_resize_contract, of photo 600 800] by simp

subsection \<open>The normalisation round trip\<close>



section \<open>Claims about \<open>inference_resizing\<close>\<close>





text \<open>
  Claim C3.  For an image of height \<open>H > 0\<close> and width \<open>W > 0\<close> with three channels that is
  processed with padding, every element of the result outside the resized image, that is
  in a row or column added at the bottom or at the right, equals the element of
  \<open>pixel_mean\<close> for its channel: the padded zero is mapped to \<open>0 * std + mean\<close>, and neither
  the product nor the sum is rounded.
\<close>

theorem padding_equals_pixel_mean:
  assumes "resize_contract resize" and "shape img = (H, W, 3)" and "0 < H" and "0 < W"
    and "inference_resizing resize img True = Inr t"
    and "i < 1024" and "j < 1024" and "k < 3"
    and "nat (fst (preprocess_shape H W)) \<le> i \<or> nat (snd (preprocess_shape H W)) \<le> j"
  shows "px t i j k = pixel_mean ! k"
proof -
  have "\<not> (i < nat (fst (preprocess_shape H W)) \<and> j < nat (snd (preprocess_shape H W)))"
    using assms(9) by linarith
  then have "px t i j k = fl32 (fl32 (0 * pixel_std ! k) + pixel_mean ! k)"
    using inference_resizing_padded[OF assms(1-4)] assms(5) by auto
  then show ?thesis using padding_value[OF assms(8)] by simp
qed

text \<open>
  The statement at the 800 by 600 photo, whose resized height is 768: row 800 of the
  result is padding.
\<close>

theorem padding_equals_pixel_mean_witness:
  "px (projr (inference_resizing nearest_resize photo True)) 800 5 2 = pixel_mean ! 2"
  using padding_equals_pixel_mean[OF nearest_resize_contract _ _ _ canvas_of_photo,
      of 600 800 800 5 2]
  by (simp add: preprocess_shape_photo)




text \<open>
  Claim C10.  Whatever the element type of the input image, the function first casts it
  to \<open>float32\<close>, and the tensor it returns has element type \<open>float32\<close> with padding and
  without.
\<close>

theorem inference_resizing_returns_float32:
  assumes "resize_contract resize" and "shape img = (H, W, C)" and "0 < H" and "0 < W"
    and "pad \<longrightarrow> C = 3"
  shows "dtype (cast_float32 img) = Float32
       \<and> (\<exists>t. inference_resizing resize img pad = Inr t \<and> dtype t = Float32)"
proof (cases pad)
  case True
  then have "shape img = (H, W, 3)" using assms(2,5) by simp
  then show ?thesis
    using inference_resizing_padded[OF assms(1) _ assms(3,4)] True by simp
next
  case False
  then show ?thesis
    using inference_resizing_unpadded[OF assms(2,3)] resized_shape(2)[OF assms(1-4)] by simp
qed

text \<open>The statement at the 8-bit photo, with padding.\<close>

theorem inference_resizing_returns_float32_witness:
  "dtype photo = UInt8 \<and> dtype (cast_float32 photo) = Float32
       \<and> (\<exists>t. inference_resizing nearest_resize photo True = Inr t \<and> dtype t = Float32)"
  using inference_resizing_returns_float32[of nearest_resize photo 600 800 3 True]
  by (simp add: nearest_resize_contract photo_def)

section \<open>Claims about prompts and requests\<close>

text \<open>
  Claim C4, as stated, fails: the prompt coordinates are not rescaled.  For the 800 by
  600 photo the scale factor is the float nearest to 1.28, and the box prompt with the
  corners (240, 340) and (400, 500) reaches the model with exactly these corners, not with
  the corners multiplied by the scale factor.
\<close>

theorem box_prompt_not_rescaled:
  "boxes (box_prompt_cell echo (projr (inference_resizing nearest_resize photo True)) input_box)
     = Some [ [((240, 340), (400, 500))] ]
   \<and> scale_factor 600 800 = 5764607523034235 / 4503599627370496
   \<and> 240 * scale_factor 600 800 \<noteq> 240"
  by (simp add: box_prompt_cell_def box_prompt_request_def echo_def input_box_def
      scale_factor_photo)

text \<open>
  Claim C4, amended.  The cells pass the prompt coordinates to the model exactly as they
  are given, so the caller has to give them in the coordinates of the padded 1024 by 1024
  canvas: the box prompt carries the given corners, with and without point prompts, and
  the point prompt carries the given points, followed by the placeholder point when there
  is no box.  No scale factor is applied.
\<close>

theorem prompts_passed_unchanged:
  "box_prompt_cell predict img b = predict (box_prompt_request img b)
   \<and> boxes (box_prompt_request img b) = Some [ [b] ]
   \<and> combined_prompt_cell predict img ps ls b = predict (combined_prompt_request img ps ls b)
   \<and> boxes (combined_prompt_request img ps ls b) = Some [ [b] ]
   \<and> points (combined_prompt_request img ps ls b) = Some [ps]
   \<and> point_prompt_cell predict img ps ls = predict (point_prompt_request img ps ls)
   \<and> map (take (length ps)) (the (points (point_prompt_request img ps ls))) = [ps]"
  by (simp add: box_prompt_cell_def box_prompt_request_def combined_prompt_cell_def
      combined_prompt_request_def point_prompt_cell_def point_prompt_request_def)

text \<open>
  Claim C5, as stated, fails: the cells do not validate the prompts.  A point prompt of
  two points with a single label is assembled into a request and handed to the model, and
  two detected boxes are not rejected but sent as a batch of two images with one box each.
\<close>

theorem malformed_prompts_not_rejected:
  "point_prompt_cell echo canvas [(284, 427 / 2), (100, 100)] [1]
     = \<lparr>images = [canvas],
        points = Some [ [(284, 427 / 2), (100, 100), (0, 0)] ],
        labels = Some [ [1, - 1] ],
        boxes = None, masks = None\<rparr>
   \<and> text_prompt_cell echo canvas [(240, 340, 400, 500), (10, 20, 30, 40)]
     = \<lparr>images = [canvas, canvas], points = None, labels = None,
        boxes = Some [ [((240, 340), (400, 500))], [((10, 20), (30, 40))] ],
        masks = None\<rparr>"
  by (simp add: point_prompt_cell_def point_prompt_request_def text_prompt_cell_def
      text_prompt_request_def echo_def)

text \<open>
  Claim C5, amended.  Request assembly rejects nothing: for every list of points and every
  list of labels, of equal length or not, the point prompt cell calls the model with the
  assembled request, whose lists are one longer than the given ones; and for every number
  of detected boxes the text prompt cell calls the model with as many images as boxes and
  exactly one box for each image.  Whether a malformed prompt is rejected is left to the
  model.
\<close>

theorem request_assembly_without_validation:
  "point_prompt_cell predict img ps ls = predict (point_prompt_request img ps ls)
   \<and> map length (the (points (point_prompt_request img ps ls))) = [length ps + 1]
   \<and> map length (the (labels (point_prompt_request img ps ls))) = [length ls + 1]
   \<and> text_prompt_cell predict img xyxy = predict (text_prompt_request img xyxy)
   \<and> length (images (text_prompt_request img xyxy)) = length xyxy
   \<and> map length (the (boxes (text_prompt_request img xyxy))) = replicate (length xyxy) 1"
  by (simp add: point_prompt_cell_def point_prompt_request_def text_prompt_cell_def
      text_prompt_request_def comp_def map_replicate_const split_def)

text \<open>
  Claim C8, as stated, fails: the placeholder point is appended on the convenience call
  path.  The point prompt cell calls \<open>predict\<close>, and the request it sends for the point
  (284, 213.5) with label 1 holds the placeholder point (0, 0) and the placeholder label
  -1 in place of the missing box.
\<close>

theorem placeholder_on_predict_path:
  "points (point_prompt_cell echo canvas [(284, 427 / 2)] [1]) = Some [ [(284, 427 / 2), (0, 0)] ]
   \<and> labels (point_prompt_cell echo canvas [(284, 427 / 2)] [1]) = Some [ [1, - 1] ]"
  by (simp add: point_prompt_cell_def point_prompt_request_def echo_def)

text \<open>
  Claim C8, amended.  On the convenience call path, the only one the notebook uses: when
  no box prompt is present the request holds the given points followed by exactly one
  placeholder point (0, 0) and the given labels followed by exactly one label -1, and the
  keys of the missing boxes and masks are absent; when a box prompt is present no
  placeholder is appended, and the keys of the prompts that are not given are absent.
\<close>

theorem placeholder_when_no_box:
  "point_prompt_request img ps ls
     = \<lparr>images = [img], points = Some [ps @ [(0, 0)] ], labels = Some [ls @ [- 1] ],
        boxes = None, masks = None\<rparr>
   \<and> combined_prompt_request img ps ls b
     = \<lparr>images = [img], points = Some [ps], labels = Some [ls],
        boxes = Some [ [b] ], masks = None\<rparr>
   \<and> points (box_prompt_request img b) = None \<and> labels (box_prompt_request img b) = None
   \<and> masks (box_prompt_request img b) = None"
  by (simp add: point_prompt_request_def combined_prompt_request_def box_prompt_request_def)

section \<open>Claims about masks\<close>

lemma greater_zero_bool:
  assumes "\<forall>row \<in> set arr. \<forall>v \<in> set row. \<exists>b. v = BoolV b"
  shows "greater_zero arr = arr"
proof -
  have "map (\<lambda>v. BoolV (0 < as_float v)) row = row" if "row \<in> set arr" for row
  proof -
    have "BoolV (0 < as_float v) = v" if "v \<in> set row" for v
    proof -
      from assms \<open>row \<in> set arr\<close> that obtain b where "v = BoolV b" by blast
      then show ?thesis by (cases b) simp_all
    qed
    then show ?thesis by (simp add: map_idI)
  qed
  then show ?thesis by (simp add: greater_zero_def map_idI)
qed

lemma greater_zero_is_bool:
  "\<forall>row \<in> set (greater_zero arr). \<forall>v \<in> set row. \<exists>b. v = BoolV b"
  by (auto simp add: greater_zero_def)

lemma binary_mask_bit:
  assumes "\<forall>row \<in> set arr. \<forall>v \<in> set row. v = IntV 0 \<or> v = IntV 1"
  shows "binary_mask arr = arr"
proof -
  have "map (one_times \<circ> (\<lambda>v. BoolV (0 < as_float v))) row = row" if "row \<in> set arr" for row
  proof -
    have "(one_times \<circ> (\<lambda>v. BoolV (0 < as_float v))) v = v" if "v \<in> set row" for v
    proof -
      from assms \<open>row \<in> set arr\<close> that have "v = IntV 0 \<or> v = IntV 1" by blast
      then show ?thesis by auto
    qed
    then show ?thesis by (simp add: map_idI)
  qed
  then show ?thesis by (simp add: binary_mask_def greater_zero_def map_idI)
qed

text \<open>
  Claim C7.  Thresholding at 0.0 is idempotent: a mask whose elements are booleans is left
  as it is by \<open>mask > 0.0\<close>, so that thresholding any array twice gives what thresholding
  it once gives; the same holds for the variant \<open>1 * (mask > 0.0)\<close> and masks whose
  elements are the integers 0 and 1.
\<close>

theorem threshold_idempotent:
  "((\<forall>row \<in> set arr. \<forall>v \<in> set row. \<exists>b. v = BoolV b) \<longrightarrow> greater_zero arr = arr)
   \<and> greater_zero (greater_zero arr) = greater_zero arr
   \<and> ((\<forall>row \<in> set arr. \<forall>v \<in> set row. v = IntV 0 \<or> v = IntV 1) \<longrightarrow> binary_mask arr = arr)
   \<and> binary_mask (binary_mask arr) = binary_mask arr"
proof -
  have "binary_mask (binary_mask arr) = binary_mask arr"
    by (simp add: binary_mask_def greater_zero_def comp_def)
  then show ?thesis
    using greater_zero_bool[of arr] greater_zero_bool[OF greater_zero_is_bool, of arr]
      binary_mask_bit[of arr] by blast
qed

text \<open>The statement at a mask of two rows.\<close>

theorem threshold_idempotent_witness:
  "greater_zero [ [BoolV True, BoolV False], [BoolV False, BoolV True] ]
     = [ [BoolV True, BoolV False], [BoolV False, BoolV True] ]
   \<and> binary_mask [ [IntV 1, IntV 0], [IntV 0, IntV 1] ] = [ [IntV 1, IntV 0], [IntV 0, IntV 1] ]
   \<and> greater_zero [ [FloatV (- 3 / 2), FloatV 2], [FloatV 0, FloatV (1 / 4)] ]
     = [ [BoolV False, BoolV True], [BoolV False, BoolV True] ]"
proof -
  have h: "\<forall>row \<in> set [ [BoolV True, BoolV False], [BoolV False, BoolV True] ].
      \<forall>v \<in> set row. \<exists>b. v = BoolV b"
    by auto
  from threshold_idempotent[of "[ [BoolV True, BoolV False], [BoolV False, BoolV True] ]"] h
  have b: "greater_zero [ [BoolV True, BoolV False], [BoolV False, BoolV True] ]
     = [ [BoolV True, BoolV False], [BoolV False, BoolV True] ]"
    by blast
  have g: "\<forall>row \<in> set [ [IntV 1, IntV 0], [IntV 0, IntV 1] ].
      \<forall>v \<in> set row. v = IntV 0 \<or> v = IntV 1"
    by auto
  from threshold_idempotent[of "[ [IntV 1, IntV 0], [IntV 0, IntV 1] ]"] g
  have i: "binary_mask [ [IntV 1, IntV 0], [IntV 0, IntV 1] ] = [ [IntV 1, IntV 0], [IntV 0, IntV 1] ]"
    by blast
  show ?thesis using b i by (simp add: greater_zero_def)
qed

section \<open>Claims about state\<close>




end
